theory Spec2Isabelle
  imports Complex_Main
begin

section \<open>Values and errors\<close>

text \<open>
  The program is \<^verbatim>\<open>src/app.py\<close>. Its numbers are Python floats (the two
  \<^verbatim>\<open>st.number_input\<close> fields with \<^verbatim>\<open>value=1.0\<close>) and one Python int
  (\<^verbatim>\<open>num_terms\<close>, the field with \<^verbatim>\<open>min_value=1\<close>). A finite float is
  modelled by the real number it denotes, with exact arithmetic: rounding of sums and
  products, infinities and NaN are outside the model. The int is a HOL \<open>int\<close>.

  A Python exception is a value of \<open>py_error\<close>; a call that returns normally is
  \<open>Inr\<close> of its result.
\<close>

datatype py_error = ZeroDivisionError | ValueError

section \<open>The sequence generator (lines 3 to 19)\<close>

text \<open>\<^verbatim>\<open>range(num_terms)\<close>: the ints from 0 up to \<open>num_terms - 1\<close>, none when
  \<open>num_terms \<le> 0\<close>.\<close>

definition range_py :: "int \<Rightarrow> int list" where
  "range_py num_terms = [0..num_terms - 1]"

text \<open>
  The loop of lines 16 to 18 over the values of the range still to visit, with the list
  \<^verbatim>\<open>sequence\<close> built so far:
  \<^verbatim>\<open>
    for n in range(num_terms):
        term = first_term + (n * common_difference)
        sequence.append(term)
  \<close>
\<close>

fun append_terms :: "real \<Rightarrow> real \<Rightarrow> int list \<Rightarrow> real list \<Rightarrow> real list" where
  "append_terms first_term common_difference [] sequence = sequence"
| "append_terms first_term common_difference (n # ns) sequence =
     append_terms first_term common_difference ns
       (sequence @ [first_term + (of_int n * common_difference)])"

text \<open>The function has no \<^verbatim>\<open>raise\<close> and no check of its arguments: every path
  reaches \<^verbatim>\<open>return sequence\<close>.\<close>

definition generate_arithmetic_sequence :: "real \<Rightarrow> real \<Rightarrow> int \<Rightarrow> py_error + real list" where
  "generate_arithmetic_sequence first_term common_difference num_terms =
     Inr (append_terms first_term common_difference (range_py num_terms) [])"

subsection \<open>The same function over an explicit store\<close>

text \<open>
  \<^verbatim>\<open>sequence = []\<close> creates a list object, \<^verbatim>\<open>sequence.append(term)\<close> changes
  that object in place, and the function returns a reference to it. To speak about
  effects, the store is the list of all list objects, an object's address its index;
  a new object goes to the end. The arguments are a float, a float and an int, which
  are immutable, so the store holds lists only.
\<close>

type_synonym heap = "real list list"

fun append_terms_st :: "real \<Rightarrow> real \<Rightarrow> int list \<Rightarrow> nat \<Rightarrow> heap \<Rightarrow> heap" where
  "append_terms_st first_term common_difference [] sequence h = h"
| "append_terms_st first_term common_difference (n # ns) sequence h =
     append_terms_st first_term common_difference ns sequence
       (h[sequence := h ! sequence @ [first_term + (of_int n * common_difference)]])"

definition generate_arithmetic_sequence_st ::
    "real \<Rightarrow> real \<Rightarrow> int \<Rightarrow> heap \<Rightarrow> py_error + (nat \<times> heap)" where
  "generate_arithmetic_sequence_st first_term common_difference num_terms h =
     (let sequence = length h; h0 = h @ [[]]
      in Inr (sequence,
              append_terms_st first_term common_difference (range_py num_terms) sequence h0))"

section \<open>Sequence properties (lines 143 to 149)\<close>

text \<open>\<^verbatim>\<open>sum(sequence)\<close> adds from the left, starting at 0.\<close>

definition sum_py :: "real list \<Rightarrow> real" where
  "sum_py xs = foldl (+) 0 xs"

text \<open>\<^verbatim>\<open>min\<close> and \<^verbatim>\<open>max\<close> of a list raise ValueError on the empty list;
  otherwise they keep the first element and replace it by each later one that is
  strictly smaller (greater).\<close>

definition min_py :: "real list \<Rightarrow> py_error + real" where
  "min_py xs = (case xs of [] \<Rightarrow> Inl ValueError
     | x # rest \<Rightarrow> Inr (foldl (\<lambda>m y. if y < m then y else m) x rest))"

definition max_py :: "real list \<Rightarrow> py_error + real" where
  "max_py xs = (case xs of [] \<Rightarrow> Inl ValueError
     | x # rest \<Rightarrow> Inr (foldl (\<lambda>m y. if y > m then y else m) x rest))"

text \<open>Line 149:
  \<^verbatim>\<open>'Yes' if common_difference > 0 else 'No' if common_difference < 0 else 'Constant'\<close>,
  shown under the label \<^verbatim>\<open>Is increasing:\<close>.\<close>

definition is_increasing_text :: "real \<Rightarrow> string" where
  "is_increasing_text common_difference =
     (if common_difference > 0 then ''Yes''
      else if common_difference < 0 then ''No'' else ''Constant'')"

text \<open>
  The trend that each answer of line 149 stands for, in the words of the specification,
  whose summary has a trend that is one of \<open>increasing\<close>, \<open>decreasing\<close> and
  \<open>constant\<close>.
\<close>

definition spec_trend :: "string \<Rightarrow> string option" where
  "spec_trend answer =
     (if answer = ''Yes'' then Some ''increasing''
      else if answer = ''No'' then Some ''decreasing''
      else if answer = ''Constant'' then Some ''constant'' else None)"

text \<open>
  The five values that the text of lines 144 to 150 is built from, in the order in which
  the f-string evaluates them: \<^verbatim>\<open>sequence_sum\<close>, \<^verbatim>\<open>sequence_sum/num_terms\<close>
  (ZeroDivisionError when \<open>num_terms\<close> is 0), \<^verbatim>\<open>min(sequence)\<close>,
  \<^verbatim>\<open>max(sequence)\<close> and the text of line 149. The four numbers are the values before
  their rendering with \<^verbatim>\<open>:.2f\<close>.
\<close>

record properties =
  sum_of_terms :: real
  average_value :: real
  range_low :: real
  range_high :: real
  is_increasing :: string

definition sequence_properties :: "real list \<Rightarrow> int \<Rightarrow> real \<Rightarrow> py_error + properties" where
  "sequence_properties sequence num_terms common_difference =
     (let sequence_sum = sum_py sequence
      in if num_terms = 0 then Inl ZeroDivisionError
         else case min_py sequence of
           Inl e \<Rightarrow> Inl e
         | Inr lo \<Rightarrow>
             (case max_py sequence of
                Inl e \<Rightarrow> Inl e
              | Inr hi \<Rightarrow>
                  Inr \<lparr>sum_of_terms = sequence_sum,
                       average_value = sequence_sum / of_int num_terms,
                       range_low = lo, range_high = hi,
                       is_increasing = is_increasing_text common_difference\<rparr>))"

section \<open>Rendering of terms (lines 117 and 138)\<close>

definition digit_char :: "nat \<Rightarrow> char" where
  "digit_char k = ''0123456789'' ! k"

definition is_digit :: "char \<Rightarrow> bool" where
  "is_digit c = (c \<in> set ''0123456789'')"

text \<open>\<^verbatim>\<open>str\<close> of a Python int: its decimal digits, after a minus sign when negative.\<close>

fun str_nat :: "nat \<Rightarrow> string" where
  "str_nat n = (if n < 10 then [digit_char n] else str_nat (n div 10) @ [digit_char (n mod 10)])"

declare str_nat.simps [simp del]

definition str_int :: "int \<Rightarrow> string" where
  "str_int i = (if i < 0 then ''-'' @ str_nat (nat (- i)) else str_nat (nat i))"

text \<open>The number that a text of digits denotes: used to state which value a rendering
  shows.\<close>

definition digit_value :: "char \<Rightarrow> nat" where
  "digit_value c = of_char c - 48"

definition nat_of_digits :: "string \<Rightarrow> nat" where
  "nat_of_digits ds = foldl (\<lambda>v c. 10 * v + digit_value c) 0 ds"

text \<open>\<^verbatim>\<open>int(term)\<close> of a finite float: truncation towards zero.\<close>

definition int_py :: "real \<Rightarrow> int" where
  "int_py x = (if 0 \<le> x then \<lfloor>x\<rfloor> else \<lceil>x\<rceil>)"

text \<open>
  \<^verbatim>\<open>f"{term:.2f}"\<close>: the exact value of the float rounded to two decimals, a tie going
  to the even neighbour; a minus sign for every negative value, also one that rounds to
  zero; the integer part, a point, two digits.
\<close>

definition round_half_even :: "real \<Rightarrow> int" where
  "round_half_even y =
     (let r = \<lfloor>y\<rfloor>; f = y - of_int r
      in if f < 1/2 then r else if 1/2 < f then r + 1 else if even r then r else r + 1)"

definition format_2f :: "real \<Rightarrow> string" where
  "format_2f x =
     (let q = nat (round_half_even (\<bar>x\<bar> * 100))
      in (if x < 0 then ''-'' else '''') @ str_nat (q div 100) @ ''.'' @
         [digit_char (q mod 100 div 10), digit_char (q mod 10)])"

text \<open>\<^verbatim>\<open>sep.join(parts)\<close>.\<close>

fun join_py :: "string \<Rightarrow> string list \<Rightarrow> string" where
  "join_py sep [] = []"
| "join_py sep [x] = x"
| "join_py sep (x # y # ys) = x @ sep @ join_py sep (y # ys)"

text \<open>Line 117, the inline display of a sequence of at most 20 terms:
  \<^verbatim>\<open>", ".join([f"{term:.2f}" if term != int(term) else str(int(term)) for term in sequence])\<close>.\<close>

definition inline_term :: "real \<Rightarrow> string" where
  "inline_term t =
     (if t \<noteq> of_int (int_py t) then format_2f t else str_int (int_py t))"

definition sequence_str :: "real list \<Rightarrow> string" where
  "sequence_str sequence = join_py '', '' (map inline_term sequence)"

text \<open>Line 138, the labelled display of one term of a longer sequence:
  \<^verbatim>\<open>formatted_term = f"{term:.2f}" if term != int(term) else str(int(term))\<close>.\<close>

definition formatted_term :: "real \<Rightarrow> string" where
  "formatted_term t =
     (if t \<noteq> of_int (int_py t) then format_2f t else str_int (int_py t))"

section \<open>The text offered for download (lines 153 and 154)\<close>

text \<open>
  \<^verbatim>\<open>"\n".join([f"Term {i+1}: {term}" for i, term in enumerate(sequence)])\<close>.
  \<^verbatim>\<open>{term}\<close> is Python's \<^verbatim>\<open>str\<close> of a float, its shortest decimal text that reads
  back as the same float; that is a function of the float's bits, so it is the parameter
  \<open>str_float\<close> here. The text is offered only when \<^verbatim>\<open>num_terms > 10\<close>.
\<close>

definition sequence_text :: "(real \<Rightarrow> string) \<Rightarrow> real list \<Rightarrow> string" where
  "sequence_text str_float sequence =
     join_py [CHR 0x0A]
       (map (\<lambda>(i, t). ''Term '' @ str_int (int i + 1) @ '': '' @ str_float t)
            (List.enumerate 0 sequence))"

definition download_text :: "(real \<Rightarrow> string) \<Rightarrow> int \<Rightarrow> real list \<Rightarrow> string option" where
  "download_text str_float num_terms sequence =
     (if num_terms > 10 then Some (sequence_text str_float sequence) else None)"

text \<open>The lines of a text, as \<^verbatim>\<open>text.split(sep)\<close> gives them: used to state what the
  downloaded text consists of.\<close>

fun split_py :: "char \<Rightarrow> string \<Rightarrow> string list" where
  "split_py sep [] = [[]]"
| "split_py sep (c # cs) =
     (if c = sep then [] # split_py sep cs
      else (case split_py sep cs of [] \<Rightarrow> [[c]] | l # ls \<Rightarrow> (c # l) # ls))"

text \<open>\<^verbatim>\<open>str\<close> of a float whose value is a whole number below \<open>10^16\<close> in size: the
  digits of that number followed by \<^verbatim>\<open>.0\<close>. Used only as a sample \<open>str_float\<close>, on
  whole numbers.\<close>

definition str_whole_float :: "real \<Rightarrow> string" where
  "str_whole_float t = str_int (int_py t) @ ''.0''"

section \<open>Properties of the generator\<close>

lemma append_terms_map:
  "append_terms a d ns acc = acc @ map (\<lambda>n. a + of_int n * d) ns"
  by (induction ns arbitrary: acc) simp_all

lemma generate_map:
  "generate_arithmetic_sequence a d n = Inr (map (\<lambda>k. a + of_int k * d) [0..n - 1])"
  by (simp add: generate_arithmetic_sequence_def range_py_def append_terms_map)

lemma generate_length:
  "\<exists>xs. generate_arithmetic_sequence a d n = Inr xs \<and> length xs = nat n"
  by (simp add: generate_map)

text \<open>
  C1. For a term count between 1 and 1000, the call returns a list whose element at every
  index \<open>i\<close> with \<open>0 \<le> i < num_terms\<close> is \<open>first_term + i * common_difference\<close>.
\<close>

theorem generate_nth:
  assumes "1 \<le> n" and "n \<le> 1000" and "0 \<le> i" and "i < n"
  shows "\<exists>xs. generate_arithmetic_sequence a d n = Inr xs \<and> xs ! nat i = a + of_int i * d"
proof -
  let ?xs = "map (\<lambda>k. a + of_int k * d) [0..n - 1]"
  have len: "nat i < length [0..n - 1]"
    using assms by simp
  have "[0..n - 1] ! nat i = 0 + int (nat i)"
    using assms by (intro nth_upto) simp
  then have "?xs ! nat i = a + of_int i * d"
    using len assms by simp
  then show ?thesis
    by (simp add: generate_map)
qed

theorem generate_nth_witness:
  "(1::int) \<le> 3 \<and> (3::int) \<le> 1000 \<and> (0::int) \<le> 2 \<and> (2::int) < 3 \<and>
   (\<exists>xs. generate_arithmetic_sequence 100 (-7) 3 = Inr xs \<and> xs ! nat 2 = 100 + of_int 2 * (-7))"
  using generate_nth [of 3 2 100 "-7"] by simp

text \<open>
  C2. For a term count of at least 1, the call returns a list of exactly that many
  elements.
\<close>

theorem generate_count:
  assumes "1 \<le> n"
  shows "\<exists>xs. generate_arithmetic_sequence a d n = Inr xs \<and> int (length xs) = n"
  using assms by (simp add: generate_map)

theorem generate_count_witness:
  "(1::int) \<le> 15 \<and>
   (\<exists>xs. generate_arithmetic_sequence 100 (-7) 15 = Inr xs \<and> int (length xs) = 15)"
  using generate_count [of 15 100 "-7"] by simp

text \<open>
  C3, as the specification states it: the call fails when the term count is outside
  1 to 1000. The code has no such check. At \<open>(0.0, 0.0, 0)\<close> the range is empty, the
  loop body never runs, and the call returns the empty list.
\<close>

theorem generate_zero_returns: "generate_arithmetic_sequence 0 0 0 = Inr []"
  by (simp add: generate_arithmetic_sequence_def range_py_def)

text \<open>
  C3, amended: for a term count outside 1 to 1000 the call does not fail; it returns a
  list of \<open>max(num_terms, 0)\<close> elements. The bounds 1 and 1000 are those of the caller's
  input field (\<^verbatim>\<open>min_value=1, max_value=1000\<close>, lines 74 to 81), not of the function.
\<close>

theorem generate_out_of_range_returns:
  assumes "n < 1 \<or> 1000 < n"
  shows "\<exists>xs. generate_arithmetic_sequence a d n = Inr xs \<and> length xs = nat n"
  using assms by (simp add: generate_map)

theorem generate_out_of_range_returns_witness:
  "((-3::int) < 1 \<or> (1000::int) < -3) \<and>
   (\<exists>xs. generate_arithmetic_sequence 2 5 (-3) = Inr xs \<and> length xs = nat (-3))"
  using generate_out_of_range_returns [of "-3" 2 5] by simp

text \<open>
  C10. For a term count of zero or less the call returns the empty list and raises
  nothing; for a term count above 1000 it returns a list of that many elements.
\<close>

theorem generate_unchecked:
  "(n \<le> 0 \<longrightarrow> generate_arithmetic_sequence a d n = Inr []) \<and>
   (1000 < n \<longrightarrow>
      (\<exists>xs. generate_arithmetic_sequence a d n = Inr xs \<and> int (length xs) = n))"
  by (simp add: generate_map)

theorem generate_unchecked_witness:
  "(-2::int) \<le> 0 \<and> generate_arithmetic_sequence 1 1 (-2) = Inr [] \<and>
   (1000::int) < 1001 \<and>
   (\<exists>xs. generate_arithmetic_sequence 1 1 1001 = Inr xs \<and> int (length xs) = 1001)"
  using generate_unchecked [of "-2" 1 1] generate_unchecked [of 1001 1 1] by simp

subsection \<open>Effects\<close>

lemma append_terms_st_cell:
  "p < length h \<Longrightarrow>
     append_terms_st a d ns p h = h[p := append_terms a d ns (h ! p)]"
  by (induction ns arbitrary: h) simp_all

lemma generate_st_result:
  "generate_arithmetic_sequence_st a d n h =
     Inr (length h, h @ [append_terms a d (range_py n) []])"
  by (simp add: generate_arithmetic_sequence_st_def Let_def append_terms_st_cell)

text \<open>
  C9. The call is deterministic and has no effect on other state. Run in two stores
  \<open>h\<close> and \<open>h'\<close> with the same arguments, it returns lists with the same content, the
  content that \<open>generate_arithmetic_sequence\<close> gives; the list it returns is a new object
  (its address is past every object of \<open>h\<close>), it is the only new object, and every object
  that was in the store before the call is unchanged after it.
\<close>

theorem generate_pure:
  "\<exists>p k p' k'.
     generate_arithmetic_sequence_st a d n h = Inr (p, k) \<and>
     generate_arithmetic_sequence_st a d n h' = Inr (p', k') \<and>
     k ! p = k' ! p' \<and>
     generate_arithmetic_sequence a d n = Inr (k ! p) \<and>
     p = length h \<and> length k = Suc (length h) \<and> take (length h) k = h"
  by (simp add: generate_st_result generate_arithmetic_sequence_def)

section \<open>Sum, average, range and the answer to "is increasing"\<close>

lemma foldl_plus: "foldl (+) s xs = s + sum_list (xs :: real list)"
  by (induction xs arbitrary: s) simp_all

lemma sum_py_sum_list: "sum_py xs = sum_list xs"
  by (simp add: sum_py_def foldl_plus)

lemma sum_list_terms:
  "sum_list (map (\<lambda>k. a + of_int k * d) [0..int m - 1]) =
     real m * a + d * (real m * (real m - 1) / 2)"
proof (induction m)
  case 0
  show ?case by simp
next
  case (Suc m)
  have "[0..int (Suc m) - 1] = [0..int m - 1] @ [int m]"
    using upto_rec2 [of 0 "int m"] by simp
  then show ?case
    using Suc by (simp add: field_simps)
qed

lemma sum_list_generated:
  assumes "0 \<le> n"
  shows "sum_list (map (\<lambda>k. (a::real) + of_int k * d) [0..n - 1]) =
     of_int n * a + d * (of_int n * (of_int n - 1) / 2)"
  using sum_list_terms [where a = a and d = d and m = "nat n"] assms by simp

lemma foldl_min:
  "foldl (\<lambda>m y. if y < m then y else m) x ys \<in> set ((x::real) # ys) \<and>
   (\<forall>z\<in>set (x # ys). foldl (\<lambda>m y. if y < m then y else m) x ys \<le> z)"
proof (induction ys arbitrary: x)
  case Nil
  show ?case by simp
next
  case (Cons y ys)
  show ?case
    using Cons [of "if y < x then y else x"] by (auto split: if_splits)
qed

lemma foldl_max:
  "foldl (\<lambda>m y. if y > m then y else m) x ys \<in> set ((x::real) # ys) \<and>
   (\<forall>z\<in>set (x # ys). z \<le> foldl (\<lambda>m y. if y > m then y else m) x ys)"
proof (induction ys arbitrary: x)
  case Nil
  show ?case by simp
next
  case (Cons y ys)
  show ?case
    using Cons [of "if y > x then y else x"] by (auto split: if_splits)
qed

lemma min_py_least:
  assumes "xs \<noteq> []"
  shows "\<exists>lo. min_py xs = Inr lo \<and> lo \<in> set xs \<and> (\<forall>z\<in>set xs. lo \<le> z)"
proof (cases xs)
  case Nil
  with assms show ?thesis by simp
next
  case (Cons x ys)
  show ?thesis
    unfolding Cons min_py_def using foldl_min [of x ys] by simp
qed

lemma max_py_greatest:
  assumes "xs \<noteq> []"
  shows "\<exists>hi. max_py xs = Inr hi \<and> hi \<in> set xs \<and> (\<forall>z\<in>set xs. z \<le> hi)"
proof (cases xs)
  case Nil
  with assms show ?thesis by simp
next
  case (Cons x ys)
  show ?thesis
    unfolding Cons max_py_def using foldl_max [of x ys] by simp
qed

lemma properties_nonempty:
  assumes "xs \<noteq> []" and "n \<noteq> 0"
  shows "\<exists>p. sequence_properties xs n d = Inr p \<and>
    sum_of_terms p = sum_list xs \<and> average_value p = sum_list xs / of_int n \<and>
    range_low p \<in> set xs \<and> (\<forall>z\<in>set xs. range_low p \<le> z) \<and>
    range_high p \<in> set xs \<and> (\<forall>z\<in>set xs. z \<le> range_high p) \<and>
    is_increasing p = is_increasing_text d"
proof -
  obtain lo where lo: "min_py xs = Inr lo" "lo \<in> set xs" "\<forall>z\<in>set xs. lo \<le> z"
    using min_py_least [OF assms(1)] by blast
  obtain hi where hi: "max_py xs = Inr hi" "hi \<in> set xs" "\<forall>z\<in>set xs. z \<le> hi"
    using max_py_greatest [OF assms(1)] by blast
  show ?thesis
    using assms(2) lo hi by (simp add: sequence_properties_def sum_py_sum_list Let_def)
qed

lemma properties_is_increasing:
  "sequence_properties xs n d = Inr p \<Longrightarrow> is_increasing p = is_increasing_text d"
  by (auto simp: sequence_properties_def Let_def split: if_splits sum.splits)

text \<open>
  C4. The answer of line 149 stands for the trend \<open>increasing\<close> exactly when the common
  difference is positive, for \<open>decreasing\<close> exactly when it is negative and for
  \<open>constant\<close> exactly when it is zero; the answers themselves are \<^verbatim>\<open>Yes\<close>,
  \<^verbatim>\<open>No\<close> and \<^verbatim>\<open>Constant\<close>. The trend depends on the sign of the common difference
  alone: whatever sequence and term count the properties are computed from, the reported
  answer is that of the common difference.
\<close>

theorem is_increasing_by_sign:
  "(spec_trend (is_increasing_text d) = Some ''increasing'') = (0 < d) \<and>
   (spec_trend (is_increasing_text d) = Some ''decreasing'') = (d < 0) \<and>
   (spec_trend (is_increasing_text d) = Some ''constant'') = (d = 0) \<and>
   (is_increasing_text d = ''Yes'') = (0 < d) \<and>
   (is_increasing_text d = ''No'') = (d < 0) \<and>
   (is_increasing_text d = ''Constant'') = (d = 0) \<and>
   (\<forall>xs n p. sequence_properties xs n d = Inr p \<longrightarrow>
       is_increasing p = is_increasing_text d)"
  by (auto simp: is_increasing_text_def spec_trend_def dest: properties_is_increasing)

theorem is_increasing_by_sign_witness:
  "sequence_properties [5, 5, 5, 5, 5] 5 0 =
     Inr \<lparr>sum_of_terms = 25, average_value = 5, range_low = 5, range_high = 5,
          is_increasing = ''Constant''\<rparr> \<and>
   is_increasing \<lparr>sum_of_terms = 25, average_value = 5, range_low = 5, range_high = 5,
          is_increasing = ''Constant''\<rparr> = is_increasing_text 0 \<and>
   (is_increasing_text 0 = ''Constant'') = ((0::real) = 0) \<and>
   (spec_trend (is_increasing_text 0) = Some ''constant'') = ((0::real) = 0)"
proof -
  have "sequence_properties [5, 5, 5, 5, 5] 5 0 =
     Inr \<lparr>sum_of_terms = 25, average_value = 5, range_low = 5, range_high = 5,
          is_increasing = ''Constant''\<rparr>"
    by (simp add: sequence_properties_def sum_py_def min_py_def max_py_def
        is_increasing_text_def)
  moreover have "is_increasing_text 0 = ''Constant''"
    by (simp add: is_increasing_text_def)
  ultimately show ?thesis
    using is_increasing_by_sign [of 0] by (simp add: spec_trend_def)
qed

text \<open>
  C5. For a term count \<open>n\<close> between 1 and 1000, the properties of the generated sequence
  are computed, and the average (the sum divided by \<open>n\<close>) is \<open>a + ((n - 1) / 2) * d\<close>,
  exactly, over the reals.
\<close>

theorem average_closed_form:
  assumes "1 \<le> n" and "n \<le> 1000"
  shows "\<exists>xs p. generate_arithmetic_sequence a d n = Inr xs \<and>
           sequence_properties xs n d = Inr p \<and>
           average_value p = a + ((of_int n - 1) / 2) * d"
proof -
  let ?xs = "map (\<lambda>k. a + of_int k * d) [0..n - 1]"
  have ne: "?xs \<noteq> []" and n0: "n \<noteq> 0"
    using assms by simp_all
  obtain p where p: "sequence_properties ?xs n d = Inr p"
      "average_value p = sum_list ?xs / of_int n"
    using properties_nonempty [OF ne n0] by blast
  have "sum_list ?xs = of_int n * a + d * (of_int n * (of_int n - 1) / 2)"
    using assms by (intro sum_list_generated) simp
  moreover have "(of_int n * a + d * (of_int n * (of_int n - 1) / 2)) / of_int n =
      a + ((of_int n - 1) / 2) * d"
    using n0 by (simp add: field_simps)
  ultimately have "average_value p = a + ((of_int n - 1) / 2) * d"
    using p(2) by simp
  with p(1) show ?thesis
    by (simp add: generate_map)
qed

theorem average_closed_form_witness:
  "(1::int) \<le> 10 \<and> (10::int) \<le> 1000 \<and>
   (\<exists>xs p. generate_arithmetic_sequence 1 1 10 = Inr xs \<and>
      sequence_properties xs 10 1 = Inr p \<and> average_value p = 5.5)"
  using average_closed_form [of 10 1 1] by simp

text \<open>
  C6. For the sequence generated from a term count of at least 1, which is not empty,
  the properties are computed: the sum is the sum of all the elements, the average is
  that sum divided by the length of the sequence, the lower end of the range is an element
  that no element is below, and the upper end an element that no element is above.
\<close>

theorem properties_of_generated:
  assumes "1 \<le> n"
  shows "\<exists>xs p. generate_arithmetic_sequence a d n = Inr xs \<and>
           sequence_properties xs n d = Inr p \<and>
           sum_of_terms p = sum_list xs \<and>
           average_value p = sum_of_terms p / real (length xs) \<and>
           range_low p \<in> set xs \<and> (\<forall>z\<in>set xs. range_low p \<le> z) \<and>
           range_high p \<in> set xs \<and> (\<forall>z\<in>set xs. z \<le> range_high p)"
proof -
  let ?xs = "map (\<lambda>k. a + of_int k * d) [0..n - 1]"
  have ne: "?xs \<noteq> []" and n0: "n \<noteq> 0"
    using assms by simp_all
  have len: "real (length ?xs) = of_int n"
    using assms by simp
  obtain p where p: "sequence_properties ?xs n d = Inr p"
      "sum_of_terms p = sum_list ?xs" "average_value p = sum_list ?xs / of_int n"
      "range_low p \<in> set ?xs" "\<forall>z\<in>set ?xs. range_low p \<le> z"
      "range_high p \<in> set ?xs" "\<forall>z\<in>set ?xs. z \<le> range_high p"
    using properties_nonempty [OF ne n0] by blast
  have "average_value p = sum_of_terms p / real (length ?xs)"
    using p(2,3) len by simp
  with p show ?thesis
    unfolding generate_map by blast
qed

theorem properties_of_generated_witness:
  "(1::int) \<le> 10 \<and>
   (\<exists>xs p. generate_arithmetic_sequence 1 1 10 = Inr xs \<and>
      sequence_properties xs 10 1 = Inr p \<and>
      xs = [1, 2, 3, 4, 5, 6, 7, 8, 9, 10] \<and>
      sum_of_terms p = 55 \<and> average_value p = 5.5 \<and>
      range_low p \<in> set xs \<and> (\<forall>z\<in>set xs. range_low p \<le> z) \<and>
      range_high p \<in> set xs \<and> (\<forall>z\<in>set xs. z \<le> range_high p))"
proof -
  have gen: "generate_arithmetic_sequence 1 1 10 = Inr [1, 2, 3, 4, 5, 6, 7, 8, 9, 10]"
    by (simp add: generate_arithmetic_sequence_def range_py_def upto_rec1)
  obtain xs p where xp: "generate_arithmetic_sequence 1 1 10 = Inr xs"
      "sequence_properties xs 10 1 = Inr p"
      "sum_of_terms p = sum_list xs"
      "average_value p = sum_of_terms p / real (length xs)"
      "range_low p \<in> set xs" "\<forall>z\<in>set xs. range_low p \<le> z"
      "range_high p \<in> set xs" "\<forall>z\<in>set xs. z \<le> range_high p"
    using properties_of_generated [of 10 1 1] by auto
  have xs: "xs = [1, 2, 3, 4, 5, 6, 7, 8, 9, 10]"
    using xp(1) gen by simp
  have vals: "sum_of_terms p = 55" "average_value p = 5.5"
    using xp(3,4) by (simp_all add: xs)
  show ?thesis
  proof (intro conjI)
    show "(1::int) \<le> 10" by simp
    show "\<exists>xs p. generate_arithmetic_sequence 1 1 10 = Inr xs \<and>
      sequence_properties xs 10 1 = Inr p \<and>
      xs = [1, 2, 3, 4, 5, 6, 7, 8, 9, 10] \<and>
      sum_of_terms p = 55 \<and> average_value p = 5.5 \<and>
      range_low p \<in> set xs \<and> (\<forall>z\<in>set xs. range_low p \<le> z) \<and>
      range_high p \<in> set xs \<and> (\<forall>z\<in>set xs. z \<le> range_high p)"
      using xp xs vals by blast
  qed
qed

section \<open>Rendering\<close>

lemma digit_char_is_digit: "k < 10 \<Longrightarrow> is_digit (digit_char k)"
  by (simp add: is_digit_def digit_char_def del: set_simps)

lemma below_ten: "k < 10 \<Longrightarrow> k \<in> {0, 1, 2, 3, 4, 5, 6, 7, 8, 9::nat}"
  by auto

lemma digit_value_digit_char: "k < 10 \<Longrightarrow> digit_value (digit_char k) = k"
  using below_ten [of k] by (auto simp: digit_value_def digit_char_def)

lemma digit_char_nonzero: "0 < k \<Longrightarrow> k < 10 \<Longrightarrow> digit_char k \<noteq> CHR ''0''"
  using below_ten [of k] by (auto simp: digit_char_def)

lemma nat_of_digits_snoc:
  "nat_of_digits (ds @ [c]) = 10 * nat_of_digits ds + digit_value c"
  by (simp add: nat_of_digits_def)

lemma str_nat_digits: "c \<in> set (str_nat n) \<Longrightarrow> is_digit c"
proof (induction n rule: str_nat.induct)
  case (1 n)
  show ?case
  proof (cases "n < 10")
    case True
    with "1.prems" show ?thesis
      by (simp add: str_nat.simps [of n] digit_char_is_digit)
  next
    case False
    with "1.prems" "1.IH" show ?thesis
      by (auto simp: str_nat.simps [of n] digit_char_is_digit)
  qed
qed

lemma str_nat_nonempty: "str_nat n \<noteq> []"
  by (simp add: str_nat.simps [of n])

lemma nat_of_digits_str_nat: "nat_of_digits (str_nat n) = n"
proof (induction n rule: str_nat.induct)
  case (1 n)
  show ?case
  proof (cases "n < 10")
    case True
    then show ?thesis
      by (simp add: str_nat.simps [of n] nat_of_digits_def digit_value_digit_char)
  next
    case False
    then have "nat_of_digits (str_nat (n div 10)) = n div 10"
      using "1.IH" by simp
    with False show ?thesis
      by (simp add: str_nat.simps [of n] nat_of_digits_snoc digit_value_digit_char)
  qed
qed

lemma str_nat_canonical: "length (str_nat n) = 1 \<or> hd (str_nat n) \<noteq> CHR ''0''"
proof (induction n rule: str_nat.induct)
  case (1 n)
  show ?case
  proof (cases "n < 10")
    case True
    then show ?thesis by (simp add: str_nat.simps [of n])
  next
    case False
    then have ih: "length (str_nat (n div 10)) = 1 \<or> hd (str_nat (n div 10)) \<noteq> CHR ''0''"
      using "1.IH" by simp
    have hd_eq: "hd (str_nat n) = hd (str_nat (n div 10))"
      using False by (simp add: str_nat.simps [of n] str_nat_nonempty)
    have "hd (str_nat (n div 10)) \<noteq> CHR ''0''"
    proof (cases "n div 10 < 10")
      case True
      moreover have "0 < n div 10" using False by simp
      ultimately show ?thesis
        by (simp add: str_nat.simps [of "n div 10"] digit_char_nonzero)
    next
      case False
      then have "length (str_nat (n div 10)) \<noteq> 1"
        by (simp add: str_nat.simps [of "n div 10"] str_nat_nonempty)
      with ih show ?thesis by simp
    qed
    with hd_eq show ?thesis by simp
  qed
qed

lemma round_half_even_near:
  "\<bar>of_int (round_half_even y) - y\<bar> \<le> 1/2 \<and>
   (\<bar>of_int (round_half_even y) - y\<bar> = 1/2 \<longrightarrow> even (round_half_even y))"
proof -
  define r where "r = \<lfloor>y\<rfloor>"
  have lo: "of_int r \<le> y" and hi: "y < of_int r + 1"
    unfolding r_def by linarith+
  consider "y - of_int r < 1/2" | "1/2 < y - of_int r" | "y - of_int r = 1/2" "even r"
    | "y - of_int r = 1/2" "odd r"
    by linarith
  then show ?thesis
  proof cases
    case 1
    then have "round_half_even y = r"
      by (simp add: round_half_even_def Let_def r_def)
    with 1 lo show ?thesis by simp
  next
    case 2
    then have "round_half_even y = r + 1"
      by (simp add: round_half_even_def Let_def r_def)
    with 2 hi show ?thesis by simp
  next
    case 3
    then have "round_half_even y = r"
      by (simp add: round_half_even_def Let_def r_def)
    with 3 show ?thesis by simp
  next
    case 4
    then have "round_half_even y = r + 1"
      by (simp add: round_half_even_def Let_def r_def)
    with 4 show ?thesis by simp
  qed
qed

lemma round_half_even_nonneg: "0 \<le> y \<Longrightarrow> 0 \<le> round_half_even y"
  by (auto simp: round_half_even_def Let_def)

lemma not_digit_dot: "\<not> is_digit (CHR ''.'')"
  by (simp add: is_digit_def)

lemma not_digit_newline: "\<not> is_digit (CHR 0x0A)"
  by (simp add: is_digit_def)

lemma str_int_chars: "c \<in> set (str_int i) \<Longrightarrow> c = CHR ''-'' \<or> is_digit c"
  by (auto simp: str_int_def dest: str_nat_digits split: if_splits)

lemma int_py_Ints: "(t = of_int (int_py t)) = (t \<in> \<int>)"
proof
  assume "t = of_int (int_py t)"
  then show "t \<in> \<int>" by (metis Ints_of_int)
next
  assume "t \<in> \<int>"
  then obtain k where "t = of_int k" by (auto elim: Ints_cases)
  then show "t = of_int (int_py t)" by (simp add: int_py_def)
qed

lemma int_py_floor: "t \<in> \<int> \<Longrightarrow> int_py t = \<lfloor>t\<rfloor>"
  by (auto simp: int_py_def elim!: Ints_cases)

lemma str_int_value:
  "\<exists>ds. str_int k = (if k < 0 then ''-'' else '''') @ ds \<and> ds \<noteq> [] \<and>
     (\<forall>c\<in>set ds. is_digit c) \<and> (length ds = 1 \<or> hd ds \<noteq> CHR ''0'') \<and>
     int (nat_of_digits ds) = \<bar>k\<bar>"
proof -
  define ds where "ds = str_nat (nat \<bar>k\<bar>)"
  have "str_int k = (if k < 0 then ''-'' else '''') @ ds"
    by (simp add: str_int_def ds_def)
  moreover have "ds \<noteq> []"
    by (simp add: ds_def str_nat_nonempty)
  moreover have "\<forall>c\<in>set ds. is_digit c"
    by (simp add: ds_def str_nat_digits)
  moreover have "length ds = 1 \<or> hd ds \<noteq> CHR ''0''"
    unfolding ds_def by (rule str_nat_canonical)
  moreover have "int (nat_of_digits ds) = \<bar>k\<bar>"
    by (simp add: ds_def nat_of_digits_str_nat)
  ultimately show ?thesis by blast
qed

lemma tens_below: "(q::nat) mod 100 div 10 < 10"
  by (simp add: less_mult_imp_div_less)

lemma two_digits_arith: "10 * ((q::nat) mod 100 div 10) + q mod 10 = q mod 100"
proof -
  have "q mod 10 = q mod 100 mod 10"
    by (simp add: mod_mod_cancel)
  then show ?thesis
    by simp
qed

lemma two_digits_value:
  "nat_of_digits [digit_char (q mod 100 div 10), digit_char (q mod 10)] = q mod 100"
proof -
  have "nat_of_digits [digit_char (q mod 100 div 10), digit_char (q mod 10)] =
      10 * digit_value (digit_char (q mod 100 div 10)) + digit_value (digit_char (q mod 10))"
    by (simp add: nat_of_digits_def)
  also have "\<dots> = 10 * (q mod 100 div 10) + q mod 10"
    using digit_value_digit_char [OF tens_below, of q] digit_value_digit_char [of "q mod 10"]
    by simp
  finally show ?thesis
    by (simp only: two_digits_arith)
qed

lemma format_2f_value:
  "\<exists>ip fp q. format_2f t = (if t < 0 then ''-'' else '''') @ ip @ ''.'' @ fp \<and>
     ip \<noteq> [] \<and> (\<forall>c\<in>set ip. is_digit c) \<and> (length ip = 1 \<or> hd ip \<noteq> CHR ''0'') \<and>
     length fp = 2 \<and> (\<forall>c\<in>set fp. is_digit c) \<and>
     q = 100 * nat_of_digits ip + nat_of_digits fp \<and>
     \<bar>real q - \<bar>t\<bar> * 100\<bar> \<le> 1/2 \<and> (\<bar>real q - \<bar>t\<bar> * 100\<bar> = 1/2 \<longrightarrow> even q)"
proof -
  define z where "z = round_half_even (\<bar>t\<bar> * 100)"
  define q where "q = nat z"
  define ip where "ip = str_nat (q div 100)"
  define fp where "fp = [digit_char (q mod 100 div 10), digit_char (q mod 10)]"
  have z0: "0 \<le> z"
    unfolding z_def by (rule round_half_even_nonneg) simp
  then have qz: "real q = of_int z" and ev: "even q = even z"
    by (simp_all add: q_def even_nat_iff)
  have near: "\<bar>of_int z - \<bar>t\<bar> * 100\<bar> \<le> 1/2"
      "\<bar>of_int z - \<bar>t\<bar> * 100\<bar> = 1/2 \<longrightarrow> even z"
    using round_half_even_near [of "\<bar>t\<bar> * 100"] by (simp_all add: z_def)
  have "format_2f t = (if t < 0 then ''-'' else '''') @ ip @ ''.'' @ fp"
    by (simp add: format_2f_def Let_def q_def z_def ip_def fp_def)
  moreover have "ip \<noteq> []"
    by (simp add: ip_def str_nat_nonempty)
  moreover have "\<forall>c\<in>set ip. is_digit c"
    by (simp add: ip_def str_nat_digits)
  moreover have "length ip = 1 \<or> hd ip \<noteq> CHR ''0''"
    unfolding ip_def by (rule str_nat_canonical)
  moreover have "length fp = 2"
    by (simp add: fp_def)
  moreover have "\<forall>c\<in>set fp. is_digit c"
    using digit_char_is_digit [OF tens_below, of q] digit_char_is_digit [of "q mod 10"]
    by (simp add: fp_def)
  moreover have "q = 100 * nat_of_digits ip + nat_of_digits fp"
  proof -
    have "nat_of_digits fp = q mod 100"
      unfolding fp_def by (rule two_digits_value)
    moreover have "nat_of_digits ip = q div 100"
      by (simp add: ip_def nat_of_digits_str_nat)
    ultimately show ?thesis
      by simp
  qed
  moreover have "\<bar>real q - \<bar>t\<bar> * 100\<bar> \<le> 1/2"
    using near(1) by (simp add: qz)
  moreover have "\<bar>real q - \<bar>t\<bar> * 100\<bar> = 1/2 \<longrightarrow> even q"
    using near(2) by (simp add: qz ev)
  ultimately show ?thesis by blast
qed

text \<open>
  C7. A term whose value is a whole number (one equal to its own truncation, which is the
  test the code makes) is rendered without a fractional part: a minus sign when it is
  negative, then the digits of its absolute value, with no point. Any other term is
  rendered with exactly two decimal digits: a minus sign when it is negative, the digits
  of the integer part, a point and two digits, which together denote the number of
  hundredths nearest to the absolute value of the term, the even one of the two when it
  lies halfway. The value 5.0 gives \<^verbatim>\<open>5\<close> and 5.25 gives \<^verbatim>\<open>5.25\<close>. The inline display
  of line 117 renders each of its terms by the same rule as the labelled display of
  line 138.
\<close>

theorem formatted_term_policy:
  "(t \<in> \<int> \<longrightarrow>
      formatted_term t = str_int \<lfloor>t\<rfloor> \<and> CHR ''.'' \<notin> set (formatted_term t) \<and>
      (\<exists>ds. formatted_term t = (if t < 0 then ''-'' else '''') @ ds \<and> ds \<noteq> [] \<and>
         (\<forall>c\<in>set ds. is_digit c) \<and> (length ds = 1 \<or> hd ds \<noteq> CHR ''0'') \<and>
         real (nat_of_digits ds) = \<bar>t\<bar>)) \<and>
   (t \<notin> \<int> \<longrightarrow>
      (\<exists>ip fp q. formatted_term t = (if t < 0 then ''-'' else '''') @ ip @ ''.'' @ fp \<and>
         ip \<noteq> [] \<and> (\<forall>c\<in>set ip. is_digit c) \<and> (length ip = 1 \<or> hd ip \<noteq> CHR ''0'') \<and>
         length fp = 2 \<and> (\<forall>c\<in>set fp. is_digit c) \<and>
         q = 100 * nat_of_digits ip + nat_of_digits fp \<and>
         \<bar>real q - \<bar>t\<bar> * 100\<bar> \<le> 1/2 \<and> (\<bar>real q - \<bar>t\<bar> * 100\<bar> = 1/2 \<longrightarrow> even q))) \<and>
   (t = of_int (int_py t)) = (t \<in> \<int>) \<and>
   formatted_term 5.0 = ''5'' \<and> formatted_term 5.25 = ''5.25'' \<and>
   inline_term t = formatted_term t \<and>
   sequence_str xs = join_py '', '' (map formatted_term xs)"
proof -
  have whole: "formatted_term t = str_int \<lfloor>t\<rfloor> \<and> CHR ''.'' \<notin> set (formatted_term t) \<and>
      (\<exists>ds. formatted_term t = (if t < 0 then ''-'' else '''') @ ds \<and> ds \<noteq> [] \<and>
         (\<forall>c\<in>set ds. is_digit c) \<and> (length ds = 1 \<or> hd ds \<noteq> CHR ''0'') \<and>
         real (nat_of_digits ds) = \<bar>t\<bar>)"
    if "t \<in> \<int>"
  proof -
    have eq: "formatted_term t = str_int \<lfloor>t\<rfloor>"
      using that int_py_Ints [of t] by (simp add: formatted_term_def int_py_floor)
    have nodot: "CHR ''.'' \<notin> set (str_int \<lfloor>t\<rfloor>)"
      using str_int_chars [of "CHR ''.''" "\<lfloor>t\<rfloor>"] not_digit_dot by auto
    have tk: "t = of_int \<lfloor>t\<rfloor>"
      using that by (auto elim: Ints_cases)
    have neg: "(\<lfloor>t\<rfloor> < 0) = (t < 0)"
      by (subst (2) tk) simp
    obtain ds where ds: "str_int \<lfloor>t\<rfloor> = (if \<lfloor>t\<rfloor> < 0 then ''-'' else '''') @ ds" "ds \<noteq> []"
        "\<forall>c\<in>set ds. is_digit c" "length ds = 1 \<or> hd ds \<noteq> CHR ''0''"
        "int (nat_of_digits ds) = \<bar>\<lfloor>t\<rfloor>\<bar>"
      using str_int_value [of "\<lfloor>t\<rfloor>"] by blast
    have "real (nat_of_digits ds) = real_of_int (int (nat_of_digits ds))"
      by simp
    also have "\<dots> = \<bar>t\<bar>"
      unfolding ds(5) by (subst (2) tk) simp
    finally have val: "real (nat_of_digits ds) = \<bar>t\<bar>" .
    have "formatted_term t = (if t < 0 then ''-'' else '''') @ ds"
      using eq ds(1) neg by simp
    with ds(2,3,4) val have "\<exists>ds. formatted_term t = (if t < 0 then ''-'' else '''') @ ds \<and>
        ds \<noteq> [] \<and> (\<forall>c\<in>set ds. is_digit c) \<and> (length ds = 1 \<or> hd ds \<noteq> CHR ''0'') \<and>
        real (nat_of_digits ds) = \<bar>t\<bar>"
      by blast
    with eq nodot show ?thesis by simp
  qed
  have part: "\<exists>ip fp q. formatted_term t = (if t < 0 then ''-'' else '''') @ ip @ ''.'' @ fp \<and>
         ip \<noteq> [] \<and> (\<forall>c\<in>set ip. is_digit c) \<and> (length ip = 1 \<or> hd ip \<noteq> CHR ''0'') \<and>
         length fp = 2 \<and> (\<forall>c\<in>set fp. is_digit c) \<and>
         q = 100 * nat_of_digits ip + nat_of_digits fp \<and>
         \<bar>real q - \<bar>t\<bar> * 100\<bar> \<le> 1/2 \<and> (\<bar>real q - \<bar>t\<bar> * 100\<bar> = 1/2 \<longrightarrow> even q)"
    if "t \<notin> \<int>"
  proof -
    have "formatted_term t = format_2f t"
      using that int_py_Ints [of t] by (simp add: formatted_term_def)
    then show ?thesis
      using format_2f_value [of t] by simp
  qed
  have five: "formatted_term 5.0 = ''5''"
    by (simp add: formatted_term_def int_py_def str_int_def str_nat.simps digit_char_def)
  have five25: "formatted_term 5.25 = ''5.25''"
    by (simp add: formatted_term_def int_py_def format_2f_def round_half_even_def
        str_nat.simps digit_char_def Let_def)
  have same: "inline_term = formatted_term"
    by (rule ext) (simp add: inline_term_def formatted_term_def)
  have seq: "sequence_str xs = join_py '', '' (map formatted_term xs)"
    by (simp add: same sequence_str_def)
  have same_t: "inline_term t = formatted_term t"
    by (simp add: same)
  show ?thesis
    using whole part five five25 int_py_Ints [of t] same_t seq by blast
qed

theorem formatted_term_policy_witness:
  "(-7::real) \<in> \<int> \<and> formatted_term (-7) = ''-7'' \<and>
   CHR ''.'' \<notin> set (formatted_term (-7)) \<and>
   (\<exists>ds. formatted_term (-7) = ''-'' @ ds \<and> ds \<noteq> [] \<and>
      (\<forall>c\<in>set ds. is_digit c) \<and> real (nat_of_digits ds) = 7) \<and>
   (-99/8::real) \<notin> \<int> \<and> formatted_term (-99/8) = ''-12.38'' \<and>
   (\<exists>ip fp q. formatted_term (-99/8) = ''-'' @ ip @ ''.'' @ fp \<and>
      ip \<noteq> [] \<and> (\<forall>c\<in>set ip. is_digit c) \<and>
      length fp = 2 \<and> (\<forall>c\<in>set fp. is_digit c) \<and>
      q = 100 * nat_of_digits ip + nat_of_digits fp \<and>
      \<bar>real q - 2475 / 2\<bar> \<le> 1/2 \<and> even q) \<and>
   sequence_str [1, 5/2] = ''1, 2.50''"
proof -
  have f25: "formatted_term (5/2) = ''2.50''"
    by (simp add: formatted_term_def int_py_def format_2f_def round_half_even_def
        str_nat.simps digit_char_def Let_def)
  have f1: "formatted_term 1 = ''1''"
    by (simp add: formatted_term_def int_py_def str_int_def str_nat.simps digit_char_def)
  have tie: "formatted_term (-99/8) = ''-12.38''"
    by (simp add: formatted_term_def int_py_def format_2f_def round_half_even_def
        str_nat.simps digit_char_def Let_def)
  have s7: "str_int (-7) = ''-7''"
    by (simp add: str_int_def str_nat.simps digit_char_def)
  have in7: "(-7::real) \<in> \<int>"
    by simp
  have out: "(-99/8::real) \<notin> \<int>"
    using int_py_Ints [of "-99/8"] by (simp add: int_py_def)
  note w = formatted_term_policy [of "-7" "[1, 5/2]"]
  note p = formatted_term_policy [of "-99/8" "[]"]
  have a: "formatted_term (-7) = ''-7''" and b: "CHR ''.'' \<notin> set (formatted_term (-7))"
    using w in7 s7 by simp_all
  obtain ds where ds: "formatted_term (-7) = (if (-7::real) < 0 then ''-'' else '''') @ ds"
      "ds \<noteq> []" "\<forall>c\<in>set ds. is_digit c" "real (nat_of_digits ds) = \<bar>-7\<bar>"
    using w in7 by blast
  have c: "\<exists>ds. formatted_term (-7) = ''-'' @ ds \<and> ds \<noteq> [] \<and>
      (\<forall>c\<in>set ds. is_digit c) \<and> real (nat_of_digits ds) = 7"
    using ds by (intro exI [of _ ds]) simp
  obtain ip fp q where pq:
      "formatted_term (-99/8) = (if (-99/8::real) < 0 then ''-'' else '''') @ ip @ ''.'' @ fp"
      "ip \<noteq> []" "\<forall>c\<in>set ip. is_digit c" "length fp = 2" "\<forall>c\<in>set fp. is_digit c"
      "q = 100 * nat_of_digits ip + nat_of_digits fp"
      "\<bar>real q - \<bar>-99/8\<bar> * 100\<bar> \<le> 1/2"
      "\<bar>real q - \<bar>-99/8\<bar> * 100\<bar> = 1/2 \<longrightarrow> even q"
    using p out by blast
  have dist: "\<bar>real q - 2475 / 2\<bar> \<le> 1/2"
    using pq(7) by simp
  then have "q = 1237 \<or> q = 1238"
    by linarith
  then have "\<bar>real q - \<bar>-99/8\<bar> * 100\<bar> = 1/2"
    by auto
  with pq(8) have ev: "even q"
    by blast
  have d: "\<exists>ip fp q. formatted_term (-99/8) = ''-'' @ ip @ ''.'' @ fp \<and>
      ip \<noteq> [] \<and> (\<forall>c\<in>set ip. is_digit c) \<and>
      length fp = 2 \<and> (\<forall>c\<in>set fp. is_digit c) \<and>
      q = 100 * nat_of_digits ip + nat_of_digits fp \<and>
      \<bar>real q - 2475 / 2\<bar> \<le> 1/2 \<and> even q"
    using pq(1-6) dist ev by (intro exI [of _ ip] exI [of _ fp] exI [of _ q]) simp
  have e: "sequence_str [1, 5/2] = ''1, 2.50''"
    using w f1 f25 by simp
  show ?thesis
    using in7 a b c out tie d e by blast
qed

section \<open>The downloaded text\<close>

lemma split_py_line: "sep \<notin> set l \<Longrightarrow> split_py sep l = [l]"
  by (induction l) auto

lemma split_py_append:
  "sep \<notin> set l \<Longrightarrow> split_py sep (l @ sep # rest) = l # split_py sep rest"
  by (induction l) auto

lemma split_py_join:
  assumes "ls \<noteq> []" and "\<forall>l\<in>set ls. sep \<notin> set l"
  shows "split_py sep (join_py [sep] ls) = ls"
  using assms
proof (induction "[sep]" ls rule: join_py.induct)
  case 1
  then show ?case by simp
next
  case (2 x)
  then show ?case by (simp add: split_py_line)
next
  case (3 x y ys)
  then show ?case by (simp add: split_py_append)
qed

lemma term_line_no_newline:
  assumes "\<forall>t. CHR 0x0A \<notin> set (str_float t)"
  shows "CHR 0x0A \<notin> set (''Term '' @ str_int (int i + 1) @ '': '' @ str_float t)"
proof -
  have "CHR 0x0A \<notin> set (str_int (int i + 1))"
    using str_int_chars [of "CHR 0x0A" "int i + 1"] not_digit_newline by auto
  with assms show ?thesis by simp
qed

lemma sequence_text_lines:
  assumes "\<forall>t. CHR 0x0A \<notin> set (str_float t)" and "xs \<noteq> []"
  shows "split_py (CHR 0x0A) (sequence_text str_float xs) =
     map (\<lambda>(i, t). ''Term '' @ str_int (int i + 1) @ '': '' @ str_float t) (List.enumerate 0 xs)"
  unfolding sequence_text_def
proof (rule split_py_join)
  show "map (\<lambda>(i, t). ''Term '' @ str_int (int i + 1) @ '': '' @ str_float t)
          (List.enumerate 0 xs) \<noteq> []"
    using assms(2) by (simp add: enumerate_eq_zip)
  show "\<forall>l\<in>set (map (\<lambda>(i, t). ''Term '' @ str_int (int i + 1) @ '': '' @ str_float t)
          (List.enumerate 0 xs)). CHR 0x0A \<notin> set l"
    using term_line_no_newline [OF assms(1)] by (auto simp del: set_append)
qed

lemma str_whole_float_no_newline: "CHR 0x0A \<notin> set (str_whole_float t)"
  using str_int_chars [of "CHR 0x0A" "int_py t"] not_digit_newline
  by (auto simp: str_whole_float_def)

text \<open>
  C8. For a generated sequence of more than 10 terms, for which the text is offered, and
  a float-to-text function that never produces a line break: the text has exactly one
  line per term, and the line at position \<open>i\<close> (from 0) is \<^verbatim>\<open>Term\<close>, the number
  \<open>i + 1\<close>, a colon and the float-to-text rendering of the term itself, which is not the
  rendering of lines 117 and 138.
\<close>

theorem download_text_lines:
  assumes "\<forall>t. CHR 0x0A \<notin> set (str_float t)" and "10 < n"
  shows "\<exists>xs body. generate_arithmetic_sequence a d n = Inr xs \<and>
           download_text str_float n xs = Some body \<and>
           length (split_py (CHR 0x0A) body) = length xs \<and>
           (\<forall>i<length xs. split_py (CHR 0x0A) body ! i =
               ''Term '' @ str_int (int i + 1) @ '': '' @ str_float (xs ! i))"
proof -
  obtain xs where xs: "generate_arithmetic_sequence a d n = Inr xs" and len: "length xs = nat n"
    using generate_length by blast
  have ne: "xs \<noteq> []"
    using len assms(2) by auto
  have lines: "split_py (CHR 0x0A) (sequence_text str_float xs) =
     map (\<lambda>(i, t). ''Term '' @ str_int (int i + 1) @ '': '' @ str_float t) (List.enumerate 0 xs)"
    using assms(1) ne by (rule sequence_text_lines)
  have "length (split_py (CHR 0x0A) (sequence_text str_float xs)) = length xs"
    unfolding lines by simp
  moreover have "\<forall>i<length xs. split_py (CHR 0x0A) (sequence_text str_float xs) ! i =
               ''Term '' @ str_int (int i + 1) @ '': '' @ str_float (xs ! i)"
    unfolding lines by (simp add: nth_enumerate_eq)
  ultimately show ?thesis
    using xs assms(2) by (simp add: download_text_def)
qed

theorem download_text_lines_witness:
  "(\<forall>t. CHR 0x0A \<notin> set (str_whole_float t)) \<and> (10::int) < 11 \<and>
   (\<exists>xs body. generate_arithmetic_sequence 1 1 11 = Inr xs \<and>
      download_text str_whole_float 11 xs = Some body \<and>
      length (split_py (CHR 0x0A) body) = 11 \<and>
      split_py (CHR 0x0A) body ! 0 = ''Term 1: 1.0'' \<and>
      split_py (CHR 0x0A) body ! 10 = ''Term 11: 11.0'' \<and>
      formatted_term (xs ! 0) = ''1'')"
proof -
  have nl: "\<forall>t. CHR 0x0A \<notin> set (str_whole_float t)"
    by (simp add: str_whole_float_no_newline)
  have gen: "generate_arithmetic_sequence 1 1 11 = Inr [1, 2, 3, 4, 5, 6, 7, 8, 9, 10, 11]"
    by (simp add: generate_arithmetic_sequence_def range_py_def upto_rec1)
  obtain xs body where xt: "generate_arithmetic_sequence 1 1 11 = Inr xs"
      "download_text str_whole_float 11 xs = Some body"
      "length (split_py (CHR 0x0A) body) = length xs"
      "\<forall>i<length xs. split_py (CHR 0x0A) body ! i =
               ''Term '' @ str_int (int i + 1) @ '': '' @ str_whole_float (xs ! i)"
    using download_text_lines [OF nl, of 11 1 1] by auto
  have xs: "xs = [1, 2, 3, 4, 5, 6, 7, 8, 9, 10, 11]"
    using xt(1) gen by simp
  have len: "length (split_py (CHR 0x0A) body) = 11"
    using xt(3) by (simp add: xs)
  have "split_py (CHR 0x0A) body ! 0 =
      ''Term '' @ str_int (int 0 + 1) @ '': '' @ str_whole_float (xs ! 0)"
    using xt(4) by (simp add: xs)
  then have l0: "split_py (CHR 0x0A) body ! 0 = ''Term 1: 1.0''"
    by (simp add: xs str_whole_float_def int_py_def str_int_def str_nat.simps digit_char_def)
  have "split_py (CHR 0x0A) body ! 10 =
      ''Term '' @ str_int (int 10 + 1) @ '': '' @ str_whole_float (xs ! 10)"
    using xt(4) by (simp add: xs)
  then have l10: "split_py (CHR 0x0A) body ! 10 = ''Term 11: 11.0''"
    by (simp add: xs str_whole_float_def int_py_def str_int_def str_nat.simps digit_char_def)
  have ft: "formatted_term (xs ! 0) = ''1''"
    by (simp add: xs formatted_term_def int_py_def str_int_def str_nat.simps digit_char_def)
  show ?thesis
  proof (intro conjI)
    show "\<forall>t. CHR 0x0A \<notin> set (str_whole_float t)" by (rule nl)
    show "(10::int) < 11" by simp
    show "\<exists>xs body. generate_arithmetic_sequence 1 1 11 = Inr xs \<and>
      download_text str_whole_float 11 xs = Some body \<and>
      length (split_py (CHR 0x0A) body) = 11 \<and>
      split_py (CHR 0x0A) body ! 0 = ''Term 1: 1.0'' \<and>
      split_py (CHR 0x0A) body ! 10 = ''Term 11: 11.0'' \<and>
      formatted_term (xs ! 0) = ''1''"
      using xt(1,2) len l0 l10 ft by blast
  qed
qed

end
